theory Spec2Isabelle
  imports Complex_Main
begin

section \<open>Data model\<close>

text \<open>
  The front end's \<^verbatim>\<open>Stop\<close> interface (App.tsx, StopsMap.tsx, ArrivalsList.tsx). The
  identifier is a whole number, on which \<^verbatim>\<open>===\<close> and \<^verbatim>\<open>includes\<close> are equality and
  membership; the optional \<^verbatim>\<open>related_stop_ids\<close> is \<open>None\<close> when the property is absent,
  as it is on every stop of a search response.
\<close>

record Stop =
  stop_id :: int
  stop_name :: string
  latitude :: real
  longitude :: real
  routes :: "string list"
  distance :: real
  related_stop_ids :: "int list option"

text \<open>The \<^verbatim>\<open>Arrival\<close> interface of ArrivalsList.tsx.\<close>

record Arrival =
  route :: string
  destination :: string
  arrival_time :: string
  minutes :: int
  is_delayed :: bool
  route_color :: "string option"
  arrival_stop_id :: int

section \<open>Stop grouping (StopsMap.tsx)\<close>

text \<open>
  \<^verbatim>\<open>findRelatedStops\<close>: a stop without routes is related to itself only; otherwise
  the stops of the same name that serve one of its routes.
\<close>

definition findRelatedStops :: "Stop \<Rightarrow> Stop list \<Rightarrow> Stop list" where
  "findRelatedStops stop allStops =
     (if routes stop = [] then [stop]
      else filter (\<lambda>s. stop_name s = stop_name stop \<and>
                        list_ex (\<lambda>r. r \<in> set (routes stop)) (routes s)) allStops)"

text \<open>
  \<^verbatim>\<open>StopsMap.handleStopSelect\<close>: the stop handed to \<^verbatim>\<open>onStopSelect\<close> by a click on
  the map, with the identifiers of its related stops (itself excluded by identifier)
  attached.
\<close>

definition StopsMap_handleStopSelect :: "Stop list \<Rightarrow> Stop list \<Rightarrow> Stop \<Rightarrow> Stop" where
  "StopsMap_handleStopSelect trainStops busStops stop =
     (let allStops = trainStops @ busStops;
          relatedStops = findRelatedStops stop allStops
      in stop\<lparr>related_stop_ids :=
                 Some (map stop_id (filter (\<lambda>s. stop_id s \<noteq> stop_id stop) relatedStops))\<rparr>)"

section \<open>The monitored set (App.tsx)\<close>

text \<open>
  \<^verbatim>\<open>ids?.includes(x)\<close>: with optional chaining an absent array gives \<^verbatim>\<open>undefined\<close>,
  which the surrounding \<^verbatim>\<open>||\<close> reads as false.
\<close>

definition includes_opt :: "int list option \<Rightarrow> int \<Rightarrow> bool" where
  "includes_opt ids x = (case ids of None \<Rightarrow> False | Some xs \<Rightarrow> x \<in> set xs)"

text \<open>
  \<^verbatim>\<open>handleStopSelect\<close> is the updater given to \<^verbatim>\<open>setMonitoredStops\<close>. The model returns
  the next monitored list together with the body of the POST to
  \<^verbatim>\<open>/api/monitored-stops\<close>, \<open>None\<close> when no request is issued.
\<close>

definition handleStopSelect :: "Stop \<Rightarrow> Stop list \<Rightarrow> Stop list \<times> Stop list option" where
  "handleStopSelect stop prev =
     (let isMonitored =
            list_ex (\<lambda>s. stop_id s = stop_id stop \<or>
                          includes_opt (related_stop_ids stop) (stop_id s) \<or>
                          includes_opt (related_stop_ids s) (stop_id stop)) prev
      in if \<not> isMonitored
         then (let newStops = prev @ [stop] in (newStops, Some newStops))
         else (prev, None))"

text \<open>The spec's \<^verbatim>\<open>added\<close> flag: the selection took the appending branch.\<close>

definition added :: "Stop list \<times> Stop list option \<Rightarrow> bool" where
  "added r = (snd r \<noteq> None)"

definition handleStopRemove :: "int \<Rightarrow> Stop list \<Rightarrow> Stop list \<times> Stop list option" where
  "handleStopRemove stopId prev =
     (let newStops = filter (\<lambda>s. stop_id s \<noteq> stopId) prev
      in (newStops, Some newStops))"

text \<open>
  The user actions that change the monitored set: the "+" button of the stop list hands
  the stop over as the search returned it; a click on the map hands over the stop
  enriched by \<open>StopsMap_handleStopSelect\<close> for the search result then on display; the
  "Remove" button names an identifier.
\<close>

datatype StoreEvent =
    ListSelect Stop
  | MapSelect "Stop list" "Stop list" Stop
  | Remove int

fun apply_event :: "StoreEvent \<Rightarrow> Stop list \<Rightarrow> Stop list" where
  "apply_event (ListSelect stop) S = fst (handleStopSelect stop S)"
| "apply_event (MapSelect trainStops busStops stop) S =
     fst (handleStopSelect (StopsMap_handleStopSelect trainStops busStops stop) S)"
| "apply_event (Remove stopId) S = fst (handleStopRemove stopId S)"

fun run_events :: "StoreEvent list \<Rightarrow> Stop list \<Rightarrow> Stop list" where
  "run_events [] S = S"
| "run_events (e # es) S = run_events es (apply_event e S)"

text \<open>
  The equivalence of the data model, in the spec's words: same name and a common route,
  or one stop's related identifiers name the other.
\<close>

definition same_class :: "Stop \<Rightarrow> Stop \<Rightarrow> bool" where
  "same_class a b =
     ((stop_name a = stop_name b \<and> list_ex (\<lambda>r. r \<in> set (routes b)) (routes a)) \<or>
      includes_opt (related_stop_ids a) (stop_id b) \<or>
      includes_opt (related_stop_ids b) (stop_id a))"

fun one_per_class :: "Stop list \<Rightarrow> bool" where
  "one_per_class [] = True"
| "one_per_class (x # xs) = (\<not> list_ex (same_class x) xs \<and> one_per_class xs)"

text \<open>
  The part of that equivalence the store itself compares: equal identifiers, or one
  stop's related identifiers name the other.
\<close>

definition linked :: "Stop \<Rightarrow> Stop \<Rightarrow> bool" where
  "linked a b =
     (stop_id a = stop_id b \<or>
      includes_opt (related_stop_ids a) (stop_id b) \<or>
      includes_opt (related_stop_ids b) (stop_id a))"

fun unlinked :: "Stop list \<Rightarrow> bool" where
  "unlinked [] = True"
| "unlinked (x # xs) = (\<not> list_ex (linked x) xs \<and> unlinked xs)"

text \<open>
  Runs in which every selection is made on the map, over one and the same search result:
  the events of such a run, and the stops such a run can hand to the store.
\<close>

fun map_event_over :: "Stop list \<Rightarrow> Stop list \<Rightarrow> StoreEvent \<Rightarrow> bool" where
  "map_event_over ts bs (ListSelect stop) = False"
| "map_event_over ts bs (MapSelect trainStops busStops stop) =
     (trainStops = ts \<and> busStops = bs \<and> stop \<in> set (ts @ bs))"
| "map_event_over ts bs (Remove stopId) = True"

definition enriched :: "Stop list \<Rightarrow> Stop list \<Rightarrow> Stop \<Rightarrow> bool" where
  "enriched ts bs s = (\<exists>u \<in> set (ts @ bs). s = StopsMap_handleStopSelect ts bs u)"

section \<open>The stop list's indicator (StopsList.tsx)\<close>

definition isStopMonitored :: "Stop list \<Rightarrow> Stop \<Rightarrow> bool" where
  "isStopMonitored monitoredStops stop =
     list_ex (\<lambda>s. stop_id s = stop_id stop) monitoredStops"

text \<open>
  The button \<^verbatim>\<open>renderStopItem\<close> draws for a stop: disabled and showing a check mark
  when the stop counts as monitored, enabled and showing a plus sign otherwise; a click
  on the enabled button calls \<^verbatim>\<open>onStopSelect(stop)\<close>.
\<close>

datatype ButtonLabel = CheckMark | PlusSign

record SelectButton =
  disabled :: bool
  label :: ButtonLabel

definition renderStopItem :: "Stop list \<Rightarrow> Stop \<Rightarrow> SelectButton" where
  "renderStopItem monitoredStops stop =
     \<lparr>disabled = isStopMonitored monitoredStops stop,
      label = (if isStopMonitored monitoredStops stop then CheckMark else PlusSign)\<rparr>"

section \<open>Arrivals of one monitored stop (ArrivalsList.tsx)\<close>

subsection \<open>Grouping by destination\<close>

text \<open>
  The accumulator of the \<^verbatim>\<open>reduce\<close> is the object literal \<^verbatim>\<open>{}\<close>, read here as
  a finite map from its own property names to arrays; the order in which
  \<^verbatim>\<open>Object.entries\<close> enumerates it is not modelled. The literal inherits from
  \<^verbatim>\<open>Object.prototype\<close>: for one of the names below \<^verbatim>\<open>acc[key]\<close> is a function (or
  the prototype object), so \<^verbatim>\<open>!acc[key]\<close> is false, no array is created, and
  \<^verbatim>\<open>acc[key].push\<close> is a call of \<^verbatim>\<open>undefined\<close>, which raises a TypeError.
\<close>

datatype js_error = TypeError

definition Object_prototype_keys :: "string list" where
  "Object_prototype_keys =
     [''constructor'', ''__defineGetter__'', ''__defineSetter__'', ''hasOwnProperty'',
      ''__lookupGetter__'', ''__lookupSetter__'', ''isPrototypeOf'',
      ''propertyIsEnumerable'', ''toString'', ''valueOf'', ''__proto__'',
      ''toLocaleString'']"

type_synonym groups = "string \<rightharpoonup> Arrival list"

text \<open>The callback of the \<^verbatim>\<open>reduce\<close>: one arrival pushed onto its destination's array.\<close>

definition group_step :: "groups \<Rightarrow> Arrival \<Rightarrow> js_error + groups" where
  "group_step acc arrival =
     (let key = destination arrival in
      case acc key of
        Some xs \<Rightarrow> Inr (acc(key \<mapsto> xs @ [arrival]))
      | None \<Rightarrow>
          if key \<in> set Object_prototype_keys then Inl TypeError
          else Inr (acc(key \<mapsto> [arrival])))"

fun reduce_groups :: "groups \<Rightarrow> Arrival list \<Rightarrow> js_error + groups" where
  "reduce_groups acc [] = Inr acc"
| "reduce_groups acc (arrival # rest) =
     (case group_step acc arrival of
        Inl e \<Rightarrow> Inl e
      | Inr acc' \<Rightarrow> reduce_groups acc' rest)"

definition arrivalsByDestination :: "Arrival list \<Rightarrow> js_error + groups" where
  "arrivalsByDestination arrivals = reduce_groups Map.empty arrivals"

definition lookup_group :: "js_error + groups \<Rightarrow> string \<Rightarrow> Arrival list option" where
  "lookup_group r d = (case r of Inl e \<Rightarrow> None | Inr g \<Rightarrow> g d)"

text \<open>
  The closed form of the \<^verbatim>\<open>reduce\<close> used in the proofs: each destination's array
  extended by the arrivals for that destination, in their order.
\<close>

definition merged :: "groups \<Rightarrow> Arrival list \<Rightarrow> groups" where
  "merged acc as =
     (\<lambda>d. let new = filter (\<lambda>a. destination a = d) as
          in if new = [] then acc d
             else Some ((case acc d of None \<Rightarrow> [] | Some xs \<Rightarrow> xs) @ new))"

subsection \<open>Component state and what it renders\<close>

record ArrivalsListState =
  arrivals :: "Arrival list"
  loading :: bool
  error :: "string option"

definition initial_state :: ArrivalsListState where
  "initial_state = \<lparr>arrivals = [], loading = False, error = None\<rparr>"

text \<open>
  How the request of one call of \<^verbatim>\<open>fetchArrivals\<close> ends: with the parsed body of a 2xx
  response, or in the \<^verbatim>\<open>catch\<close> block with the message of the error thrown (by
  \<^verbatim>\<open>fetch\<close>, by \<^verbatim>\<open>json()\<close>, or by the function itself for a response that is not ok,
  whose status is given in decimal).
\<close>

datatype FetchOutcome =
    Resolved "Arrival list"
  | Threw string

definition not_ok :: "string \<Rightarrow> FetchOutcome" where
  "not_ok status = Threw (''HTTP error! status: '' @ status)"

text \<open>\<^verbatim>\<open>fetchArrivals\<close> up to its \<^verbatim>\<open>await\<close>, and from the settled request to its end.\<close>

definition fetch_started :: "ArrivalsListState \<Rightarrow> ArrivalsListState" where
  "fetch_started st = st\<lparr>loading := True, error := None\<rparr>"

definition fetch_settled :: "FetchOutcome \<Rightarrow> ArrivalsListState \<Rightarrow> ArrivalsListState" where
  "fetch_settled outcome st =
     (case outcome of
        Resolved data \<Rightarrow> st\<lparr>arrivals := data, loading := False\<rparr>
      | Threw message \<Rightarrow>
          st\<lparr>error := Some (''Error fetching arrivals: '' @ message), loading := False\<rparr>)"

definition fetchArrivals :: "FetchOutcome \<Rightarrow> ArrivalsListState \<Rightarrow> ArrivalsListState" where
  "fetchArrivals outcome st = fetch_settled outcome (fetch_started st)"

text \<open>A string state used as a condition: \<^verbatim>\<open>null\<close> and the empty string are false.\<close>

definition truthy :: "string option \<Rightarrow> bool" where
  "truthy e = (case e of None \<Rightarrow> False | Some m \<Rightarrow> m \<noteq> [])"

datatype View =
    Spinner
  | ErrorAlert string
  | ArrivalsPaper groups

definition render :: "ArrivalsListState \<Rightarrow> js_error + View" where
  "render st =
     (if loading st \<and> arrivals st = [] then Inr Spinner
      else if truthy (error st) then Inr (ErrorAlert (the (error st)))
      else (case arrivalsByDestination (arrivals st) of
              Inl e \<Rightarrow> Inl e
            | Inr g \<Rightarrow> Inr (ArrivalsPaper g)))"

text \<open>An arrival is on the screen when the view lists it under its destination.\<close>

definition observes :: "js_error + View \<Rightarrow> Arrival \<Rightarrow> bool" where
  "observes v a =
     (case v of
        Inr (ArrivalsPaper g) \<Rightarrow>
          (case g (destination a) of Some xs \<Rightarrow> a \<in> set xs | None \<Rightarrow> False)
      | _ \<Rightarrow> False)"

subsection \<open>The refresh effect\<close>

text \<open>
  The effect of \<^verbatim>\<open>useEffect\<close> calls \<^verbatim>\<open>fetchArrivals()\<close> and then
  \<^verbatim>\<open>setInterval(fetchArrivals, 30000)\<close>; its cleanup clears the interval. Time is
  abstracted into the order of events: the effect runs (\<open>Mount\<close>), the interval fires
  (\<open>Tick\<close>), a request in flight settles (\<open>Settle\<close>), the cleanup runs (\<open>Unmount\<close>). The
  code bounds no request's duration, so a \<open>Tick\<close> may come before the \<open>Settle\<close> of the
  request started before it.
\<close>

record Poller =
  interval_armed :: bool
  in_flight :: nat

definition idle :: Poller where
  "idle = \<lparr>interval_armed = False, in_flight = 0\<rparr>"

datatype PollEvent = Mount | Tick | Settle | Unmount

fun poll_step :: "PollEvent \<Rightarrow> Poller \<Rightarrow> Poller" where
  "poll_step Mount p = \<lparr>interval_armed = True, in_flight = in_flight p + 1\<rparr>"
| "poll_step Tick p = (if interval_armed p then p\<lparr>in_flight := in_flight p + 1\<rparr> else p)"
| "poll_step Settle p = (if in_flight p = 0 then p else p\<lparr>in_flight := in_flight p - 1\<rparr>)"
| "poll_step Unmount p = p\<lparr>interval_armed := False\<rparr>"

fun starts_poll :: "PollEvent \<Rightarrow> Poller \<Rightarrow> bool" where
  "starts_poll Mount p = True"
| "starts_poll Tick p = interval_armed p"
| "starts_poll Settle p = False"
| "starts_poll Unmount p = False"

fun run_poller :: "PollEvent list \<Rightarrow> Poller \<Rightarrow> Poller" where
  "run_poller [] p = p"
| "run_poller (e # es) p = run_poller es (poll_step e p)"

text \<open>A run is sequential when every poll it starts finds no request in flight.\<close>

fun sequential :: "PollEvent list \<Rightarrow> Poller \<Rightarrow> bool" where
  "sequential [] p = True"
| "sequential (e # es) p =
     ((if starts_poll e p then in_flight p = 0 else True) \<and> sequential es (poll_step e p))"

section \<open>Location form (LocationSettings.tsx)\<close>

text \<open>
  A JavaScript number as \<^verbatim>\<open>parseFloat\<close> returns it. Comparing a finite double with the
  constants of the form (all of them doubles) agrees with comparing the reals they
  denote; every comparison with \<^verbatim>\<open>NaN\<close> is false.
\<close>

datatype jsnum = NaN | NegInfinity | Finite real | PosInfinity

fun js_less :: "jsnum \<Rightarrow> real \<Rightarrow> bool" where
  "js_less NaN c = False"
| "js_less NegInfinity c = True"
| "js_less (Finite x) c = (x < c)"
| "js_less PosInfinity c = False"

fun js_greater :: "jsnum \<Rightarrow> real \<Rightarrow> bool" where
  "js_greater NaN c = False"
| "js_greater NegInfinity c = False"
| "js_greater (Finite x) c = (x > c)"
| "js_greater PosInfinity c = True"

fun js_less_eq :: "jsnum \<Rightarrow> real \<Rightarrow> bool" where
  "js_less_eq NaN c = False"
| "js_less_eq NegInfinity c = True"
| "js_less_eq (Finite x) c = (x \<le> c)"
| "js_less_eq PosInfinity c = False"

definition isNaN :: "jsnum \<Rightarrow> bool" where
  "isNaN x = (x = NaN)"

text \<open>
  What one submission does: the next value of the form's \<^verbatim>\<open>error\<close> state, and the
  arguments of the call of \<^verbatim>\<open>onLocationUpdate\<close> (the only way from the form to the
  network), \<open>None\<close> when it is not called.
\<close>

record SubmitResult =
  form_error :: "string option"
  onLocationUpdate :: "(jsnum \<times> jsnum \<times> jsnum) option"

text \<open>
  \<^verbatim>\<open>handleSubmit\<close> over the three text states of the form; \<^verbatim>\<open>parseFloat\<close>, a builtin of
  the language, is a parameter.
\<close>

definition handleSubmit ::
  "(string \<Rightarrow> jsnum) \<Rightarrow> string \<Rightarrow> string \<Rightarrow> string \<Rightarrow> SubmitResult" where
  "handleSubmit parseFloat latitudeText longitudeText radiusText =
     (let lat = parseFloat latitudeText;
          lon = parseFloat longitudeText;
          rad = parseFloat radiusText
      in if isNaN lat \<or> isNaN lon \<or> isNaN rad
         then \<lparr>form_error = Some ''Please enter valid numbers'', onLocationUpdate = None\<rparr>
         else if js_less lat (- 90) \<or> js_greater lat 90
         then \<lparr>form_error = Some ''Latitude must be between -90 and 90'',
               onLocationUpdate = None\<rparr>
         else if js_less lon (- 180) \<or> js_greater lon 180
         then \<lparr>form_error = Some ''Longitude must be between -180 and 180'',
               onLocationUpdate = None\<rparr>
         else if js_less_eq rad 0 \<or> js_greater rad 2
         then \<lparr>form_error = Some ''Radius must be between 0 and 2 miles'',
               onLocationUpdate = None\<rparr>
         else \<lparr>form_error = None, onLocationUpdate = Some (lat, lon, rad)\<rparr>)"

text \<open>\<^verbatim>\<open>String.prototype.includes\<close>, through a prefix test at every position.\<close>

fun starts_with :: "string \<Rightarrow> string \<Rightarrow> bool" where
  "starts_with s [] = True"
| "starts_with [] (c # cs) = False"
| "starts_with (d # ds) (c # cs) = (d = c \<and> starts_with ds cs)"

fun includes_str :: "string \<Rightarrow> string \<Rightarrow> bool" where
  "includes_str [] p = (p = [])"
| "includes_str (d # ds) p = (starts_with (d # ds) p \<or> includes_str ds p)"

text \<open>
  The \<^verbatim>\<open>error\<close> props of the three text fields,
  \<^verbatim>\<open>!!error && error.includes('Latitude')\<close> and its two siblings: the field a message
  marks. A message is field-specific when it marks a field.
\<close>

definition field_marked :: "string option \<Rightarrow> string \<Rightarrow> bool" where
  "field_marked e field = (truthy e \<and> includes_str (the e) field)"

definition field_specific :: "string option \<Rightarrow> bool" where
  "field_specific e =
     (field_marked e ''Latitude'' \<or> field_marked e ''Longitude'' \<or> field_marked e ''Radius'')"

text \<open>
  The bounds of the nearby-stops interface, in the spec's words: latitude in
  \<open>[-90, 90]\<close>, longitude in \<open>[-180, 180]\<close>, radius in \<open>(0, 2]\<close>.
\<close>

definition valid_latitude :: "jsnum \<Rightarrow> bool" where
  "valid_latitude x = (case x of Finite r \<Rightarrow> - 90 \<le> r \<and> r \<le> 90 | _ \<Rightarrow> False)"

definition valid_longitude :: "jsnum \<Rightarrow> bool" where
  "valid_longitude x = (case x of Finite r \<Rightarrow> - 180 \<le> r \<and> r \<le> 180 | _ \<Rightarrow> False)"

definition valid_radius :: "jsnum \<Rightarrow> bool" where
  "valid_radius x = (case x of Finite r \<Rightarrow> 0 < r \<and> r \<le> 2 | _ \<Rightarrow> False)"

section \<open>Example data\<close>

text \<open>
  The scenario of the specification: two bus stops named State/Lake, opposite directions
  of route 22, as a search returns them; and a stop of another name and route.
\<close>

definition stop_1001 :: Stop where
  "stop_1001 = \<lparr>stop_id = 1001, stop_name = ''State/Lake'', latitude = 41.8857,
     longitude = - 87.6278, routes = [''22''], distance = 0.1, related_stop_ids = None\<rparr>"

definition stop_1002 :: Stop where
  "stop_1002 = \<lparr>stop_id = 1002, stop_name = ''State/Lake'', latitude = 41.8858,
     longitude = - 87.6279, routes = [''22''], distance = 0.1, related_stop_ids = None\<rparr>"

definition stop_2000 :: Stop where
  "stop_2000 = \<lparr>stop_id = 2000, stop_name = ''Clark/Lake'', latitude = 41.8857,
     longitude = - 87.6309, routes = [''156''], distance = 0.2, related_stop_ids = None\<rparr>"

text \<open>
  A train stop that carries the identifier of the bus stop 1002, under another name and
  route: a search result in which the identifier does not determine the stop.
\<close>

definition train_1002 :: Stop where
  "train_1002 = \<lparr>stop_id = 1002, stop_name = ''Lake'', latitude = 41.8848,
     longitude = - 87.6278, routes = [''Red''], distance = 0.1, related_stop_ids = None\<rparr>"

text \<open>
  Arrivals of the specification's polling scenario, in the order of an upstream answer
  that is not sorted by minutes, and one for another destination.
\<close>

definition arrival_howard_12 :: Arrival where
  "arrival_howard_12 = \<lparr>route = ''22'', destination = ''Howard'',
     arrival_time = ''2024-05-01T10:12:00'', minutes = 12, is_delayed = False,
     route_color = None, arrival_stop_id = 1001\<rparr>"

definition arrival_howard_4 :: Arrival where
  "arrival_howard_4 = \<lparr>route = ''22'', destination = ''Howard'',
     arrival_time = ''2024-05-01T10:04:00'', minutes = 4, is_delayed = False,
     route_color = None, arrival_stop_id = 1002\<rparr>"

definition arrival_harrison_7 :: Arrival where
  "arrival_harrison_7 = \<lparr>route = ''22'', destination = ''Harrison'',
     arrival_time = ''2024-05-01T10:07:00'', minutes = 7, is_delayed = True,
     route_color = None, arrival_stop_id = 1002\<rparr>"

text \<open>A stand-in for \<^verbatim>\<open>parseFloat\<close> on the texts the examples submit.\<close>

definition parse_sample :: "string \<Rightarrow> jsnum" where
  "parse_sample s =
     (if s = ''41.8781'' then Finite 41.8781
      else if s = ''-87.6298'' then Finite (- 87.6298)
      else if s = ''0.5'' then Finite 0.5
      else if s = ''3'' then Finite 3
      else if s = ''91'' then Finite 91
      else NaN)"

section \<open>Properties of stop grouping\<close>

lemma related_ids_of_map_select:
  "related_stop_ids (StopsMap_handleStopSelect trainStops busStops c) =
     Some (map stop_id (filter (\<lambda>s. stop_id s \<noteq> stop_id c)
                          (findRelatedStops c (trainStops @ busStops))))"
  by (simp add: StopsMap_handleStopSelect_def Let_def)

lemma filter_related:
  assumes "routes c \<noteq> []"
  shows "filter (\<lambda>s. stop_id s \<noteq> stop_id c) (findRelatedStops c U) =
         filter (\<lambda>s. stop_id s \<noteq> stop_id c \<and> stop_name s = stop_name c \<and>
                     set (routes s) \<inter> set (routes c) \<noteq> {}) U"
proof -
  from assms have "filter (\<lambda>s. stop_id s \<noteq> stop_id c) (findRelatedStops c U) =
     filter (\<lambda>s. stop_id s \<noteq> stop_id c)
       (filter (\<lambda>s. stop_name s = stop_name c \<and>
                     list_ex (\<lambda>r. r \<in> set (routes c)) (routes s)) U)"
    by (simp add: findRelatedStops_def)
  also have "\<dots> = filter (\<lambda>s. stop_id s \<noteq> stop_id c \<and> stop_name s = stop_name c \<and>
               set (routes s) \<inter> set (routes c) \<noteq> {}) U"
    unfolding filter_filter by (rule filter_cong) (auto simp: list_ex_iff)
  finally show ?thesis .
qed

lemma filter_related_no_routes:
  "routes c = [] \<Longrightarrow> filter (\<lambda>s. stop_id s \<noteq> stop_id c) (findRelatedStops c U) = []"
  by (simp add: findRelatedStops_def)

lemma includes_related_iff:
  "includes_opt (related_stop_ids (StopsMap_handleStopSelect trainStops busStops c)) i =
     (routes c \<noteq> [] \<and>
      (\<exists>s \<in> set (trainStops @ busStops). stop_id s = i \<and> stop_id s \<noteq> stop_id c \<and>
          stop_name s = stop_name c \<and> set (routes s) \<inter> set (routes c) \<noteq> {}))"
proof (cases "routes c = []")
  case True
  then show ?thesis
    unfolding related_ids_of_map_select by (simp add: filter_related_no_routes includes_opt_def)
next
  case False
  then show ?thesis
    unfolding related_ids_of_map_select filter_related[OF False] includes_opt_def
    by (simp only: option.case set_map set_filter) blast
qed

text \<open>
  Claim C5. The related identifiers the map's selection handler attaches to a candidate
  over the universe \<open>trainStops @ busStops\<close>: none when the candidate has no routes;
  otherwise the identifiers, in the universe's order, of exactly the stops of the
  universe that have the candidate's name and a route in common with it, the candidate
  left out. The candidate is left out by identifier, the identity of a stop in the data
  model.
\<close>

theorem relate_spec:
  "related_stop_ids (StopsMap_handleStopSelect trainStops busStops candidate) =
     Some (if routes candidate = [] then []
           else map stop_id (filter (\<lambda>s. stop_id s \<noteq> stop_id candidate \<and>
                   stop_name s = stop_name candidate \<and>
                   set (routes s) \<inter> set (routes candidate) \<noteq> {}) (trainStops @ busStops)))"
proof (cases "routes candidate = []")
  case True
  then show ?thesis
    by (simp add: related_ids_of_map_select filter_related_no_routes)
next
  case False
  then show ?thesis
    by (simp add: related_ids_of_map_select filter_related del: filter_append map_append)
qed

theorem relate_spec_witness:
  "related_stop_ids (StopsMap_handleStopSelect [] [stop_1001, stop_2000, stop_1002] stop_1001)
     = Some [1002]
   \<and> related_stop_ids (StopsMap_handleStopSelect [] [stop_1001\<lparr>routes := []\<rparr>, stop_1002]
        (stop_1001\<lparr>routes := []\<rparr>)) = Some []"
  using relate_spec [of "[]" "[stop_1001, stop_2000, stop_1002]" stop_1001]
    relate_spec [of "[]" "[stop_1001\<lparr>routes := []\<rparr>, stop_1002]" "stop_1001\<lparr>routes := []\<rparr>"]
  by (simp add: stop_1001_def stop_1002_def stop_2000_def)

text \<open>
  Claim C6 as stated fails for a universe in which two stops carry one identifier. The
  related identifiers are identifiers, not stops: with the train stop 1002 (Lake, Red
  line) beside the bus stops 1001 and 1002 (State/Lake, route 22), those computed for
  bus stop 1001 are \<open>[1002]\<close>, on account of the bus stop, and so contain the train
  stop's identifier; those computed for the train stop are empty.
\<close>

theorem relate_symmetric_counterexample:
  "stop_1001 \<in> set ([train_1002] @ [stop_1001, stop_1002])
   \<and> train_1002 \<in> set ([train_1002] @ [stop_1001, stop_1002])
   \<and> related_stop_ids
        (StopsMap_handleStopSelect [train_1002] [stop_1001, stop_1002] stop_1001)
       = Some [1002]
   \<and> includes_opt
        (related_stop_ids
           (StopsMap_handleStopSelect [train_1002] [stop_1001, stop_1002] stop_1001))
        (stop_id train_1002)
   \<and> related_stop_ids
        (StopsMap_handleStopSelect [train_1002] [stop_1001, stop_1002] train_1002)
       = Some []
   \<and> \<not> includes_opt
        (related_stop_ids
           (StopsMap_handleStopSelect [train_1002] [stop_1001, stop_1002] train_1002))
        (stop_id stop_1001)"
  by (simp add: StopsMap_handleStopSelect_def findRelatedStops_def includes_opt_def Let_def
      stop_1001_def stop_1002_def train_1002_def)

text \<open>
  Claim C6, amended. Over one universe that holds both stops and in which the identifier
  determines the stop (the data model's unique \<open>stop_id\<close>): when the related
  identifiers computed for \<open>A\<close> contain \<open>B\<close>'s, those computed for \<open>B\<close> contain \<open>A\<close>'s.
  A stop without routes relates to nothing and nothing relates to it, so the statement
  covers empty route sets.
\<close>

theorem relate_symmetric:
  assumes A: "A \<in> set (trainStops @ busStops)" and B: "B \<in> set (trainStops @ busStops)"
    and ids: "inj_on stop_id (set (trainStops @ busStops))"
    and AB: "includes_opt (related_stop_ids (StopsMap_handleStopSelect trainStops busStops A))
               (stop_id B)"
  shows "includes_opt (related_stop_ids (StopsMap_handleStopSelect trainStops busStops B))
           (stop_id A)"
proof -
  let ?U = "trainStops @ busStops"
  from AB obtain s where s: "s \<in> set ?U" "stop_id s = stop_id B" "stop_id s \<noteq> stop_id A"
    "stop_name s = stop_name A" "set (routes s) \<inter> set (routes A) \<noteq> {}"
    unfolding includes_related_iff by blast
  from ids s(2,1) B have "s = B" by (rule inj_onD)
  with s have *: "stop_id A \<noteq> stop_id B" "stop_name A = stop_name B"
    "set (routes A) \<inter> set (routes B) \<noteq> {}" by auto
  then have "routes B \<noteq> []" by auto
  with * A show ?thesis
    unfolding includes_related_iff by blast
qed

theorem relate_symmetric_witness:
  "stop_1001 \<in> set ([] @ [stop_1001, stop_2000, stop_1002])
   \<and> stop_1002 \<in> set ([] @ [stop_1001, stop_2000, stop_1002])
   \<and> inj_on stop_id (set ([] @ [stop_1001, stop_2000, stop_1002]))
   \<and> includes_opt (related_stop_ids
        (StopsMap_handleStopSelect [] [stop_1001, stop_2000, stop_1002] stop_1001))
        (stop_id stop_1002)
   \<and> includes_opt (related_stop_ids
        (StopsMap_handleStopSelect [] [stop_1001, stop_2000, stop_1002] stop_1002))
        (stop_id stop_1001)"
proof -
  let ?bus = "[stop_1001, stop_2000, stop_1002]"
  have h1: "stop_1001 \<in> set ([] @ ?bus)" by simp
  have h2: "stop_1002 \<in> set ([] @ ?bus)" by simp
  have h3: "inj_on stop_id (set ([] @ ?bus))"
    by (simp add: stop_1001_def stop_1002_def stop_2000_def)
  have h4: "includes_opt (related_stop_ids (StopsMap_handleStopSelect [] ?bus stop_1001))
              (stop_id stop_1002)"
    by (simp add: StopsMap_handleStopSelect_def findRelatedStops_def includes_opt_def Let_def
        stop_1001_def stop_1002_def stop_2000_def)
  from h1 h2 h3 h4 relate_symmetric [OF h1 h2 h3 h4] show ?thesis by blast
qed

section \<open>Properties of the monitored set\<close>

text \<open>
  Claim C2. A selection is rejected (nothing appended, nothing posted, \<open>added\<close> false)
  exactly when some monitored stop has the selected stop's identifier, or is named by the
  selected stop's related identifiers, or names the selected stop in its own; otherwise
  the stop is appended and the new list is posted. Selecting the same stop again, right
  after, changes nothing and reports \<open>added\<close> false.
\<close>

theorem add_rejects_iff_linked:
  "(\<not> added (handleStopSelect x S)) =
     (\<exists>s \<in> set S. stop_id s = stop_id x \<or>
        (\<exists>ids. related_stop_ids x = Some ids \<and> stop_id s \<in> set ids) \<or>
        (\<exists>ids. related_stop_ids s = Some ids \<and> stop_id x \<in> set ids))
   \<and> (\<not> added (handleStopSelect x S) \<longrightarrow> handleStopSelect x S = (S, None))
   \<and> (added (handleStopSelect x S) \<longrightarrow> handleStopSelect x S = (S @ [x], Some (S @ [x])))
   \<and> handleStopSelect x (fst (handleStopSelect x S)) = (fst (handleStopSelect x S), None)
   \<and> \<not> added (handleStopSelect x (fst (handleStopSelect x S)))"
proof -
  let ?m = "\<exists>s \<in> set S. stop_id s = stop_id x \<or>
        (\<exists>ids. related_stop_ids x = Some ids \<and> stop_id s \<in> set ids) \<or>
        (\<exists>ids. related_stop_ids s = Some ids \<and> stop_id x \<in> set ids)"
  have m: "list_ex (\<lambda>s. stop_id s = stop_id x \<or>
                          includes_opt (related_stop_ids x) (stop_id s) \<or>
                          includes_opt (related_stop_ids s) (stop_id x)) S = ?m"
    unfolding list_ex_iff includes_opt_def
    by (rule bex_cong[OF refl]) (simp split: option.splits)
  have sel: "handleStopSelect x S = (if ?m then (S, None) else (S @ [x], Some (S @ [x])))"
    unfolding handleStopSelect_def m Let_def by simp
  have again: "handleStopSelect x (S @ [x]) = (S @ [x], None)"
    by (simp add: handleStopSelect_def Let_def)
  show ?thesis
  proof (cases ?m)
    case True
    then have "handleStopSelect x S = (S, None)" using sel by simp
    with True show ?thesis by (simp add: added_def)
  next
    case False
    then have "handleStopSelect x S = (S @ [x], Some (S @ [x]))" using sel by simp
    with False again show ?thesis by (simp add: added_def)
  qed
qed

theorem add_rejects_iff_linked_witness:
  "added (handleStopSelect stop_1002 [stop_2000])
   \<and> handleStopSelect stop_1002 [stop_2000] =
       ([stop_2000, stop_1002], Some [stop_2000, stop_1002])
   \<and> handleStopSelect stop_1002 [stop_2000, stop_1002] = ([stop_2000, stop_1002], None)
   \<and> \<not> added (handleStopSelect stop_1002 [stop_1001\<lparr>related_stop_ids := Some [1002]\<rparr>])
   \<and> handleStopSelect stop_1002 [stop_1001\<lparr>related_stop_ids := Some [1002]\<rparr>] =
       ([stop_1001\<lparr>related_stop_ids := Some [1002]\<rparr>], None)"
proof -
  let ?paired = "[stop_1001\<lparr>related_stop_ids := Some [1002]\<rparr>]"
  note fresh_case = add_rejects_iff_linked [of stop_1002 "[stop_2000]"]
  note paired_case = add_rejects_iff_linked [of stop_1002 ?paired]
  have fresh: "added (handleStopSelect stop_1002 [stop_2000])"
    using fresh_case by (simp add: stop_1002_def stop_2000_def)
  with fresh_case have appended: "handleStopSelect stop_1002 [stop_2000] =
      ([stop_2000] @ [stop_1002], Some ([stop_2000] @ [stop_1002]))"
    by blast
  from fresh_case have "handleStopSelect stop_1002 (fst (handleStopSelect stop_1002 [stop_2000]))
      = (fst (handleStopSelect stop_1002 [stop_2000]), None)"
    by blast
  with appended have again: "handleStopSelect stop_1002 [stop_2000, stop_1002] =
      ([stop_2000, stop_1002], None)"
    by simp
  have known: "\<not> added (handleStopSelect stop_1002 ?paired)"
    using paired_case by (simp add: stop_1001_def stop_1002_def)
  with paired_case have unchanged: "handleStopSelect stop_1002 ?paired = (?paired, None)"
    by blast
  from fresh appended again known unchanged show ?thesis by simp
qed

lemma length_filter_distinct_ids:
  "distinct (map stop_id S) \<Longrightarrow>
   length (filter (\<lambda>s. stop_id s \<noteq> i) S) = length S - (if i \<in> stop_id ` set S then 1 else 0)"
proof (induction S)
  case Nil
  then show ?case by simp
next
  case (Cons a S)
  show ?case
  proof (cases "stop_id a = i")
    case True
    with Cons.prems have "i \<notin> stop_id ` set S" by auto
    then have "filter (\<lambda>s. stop_id s \<noteq> i) S = S"
      by (auto simp: filter_id_conv)
    with True show ?thesis by simp
  next
    case False
    from Cons have IH: "length (filter (\<lambda>s. stop_id s \<noteq> i) S) =
       length S - (if i \<in> stop_id ` set S then 1 else 0)" by simp
    show ?thesis
    proof (cases "i \<in> stop_id ` set S")
      case True
      then have "S \<noteq> []" by auto
      then have "0 < length S" by simp
      with True False IH show ?thesis by simp
    next
      case absent: False
      with False IH show ?thesis by simp
    qed
  qed
qed

text \<open>
  Claim C7. On a monitored list whose identifiers are unique, removal keeps, in order,
  exactly the stops whose identifier differs from the one given: the stops it drops are
  those with that identifier and no other (no entry is dropped for being related), the
  length falls by one when the identifier was present and by nothing otherwise, and
  removing the same identifier again returns the same list. The new list is posted.
\<close>

theorem remove_exact:
  assumes "distinct (map stop_id S)"
  shows "fst (handleStopRemove i S) = filter (\<lambda>s. stop_id s \<noteq> i) S
    \<and> set (fst (handleStopRemove i S)) = set S - {s. stop_id s = i}
    \<and> length (fst (handleStopRemove i S)) = length S - (if i \<in> stop_id ` set S then 1 else 0)
    \<and> fst (handleStopRemove i (fst (handleStopRemove i S))) = fst (handleStopRemove i S)
    \<and> snd (handleStopRemove i S) = Some (fst (handleStopRemove i S))"
proof -
  have 1: "fst (handleStopRemove i S) = filter (\<lambda>s. stop_id s \<noteq> i) S"
    by (simp add: handleStopRemove_def Let_def)
  have 2: "set (filter (\<lambda>s. stop_id s \<noteq> i) S) = set S - {s. stop_id s = i}" by auto
  have 4: "fst (handleStopRemove i (fst (handleStopRemove i S))) = fst (handleStopRemove i S)"
    by (simp add: handleStopRemove_def Let_def)
  have 5: "snd (handleStopRemove i S) = Some (fst (handleStopRemove i S))"
    by (simp add: handleStopRemove_def Let_def)
  from 1 2 4 5 length_filter_distinct_ids[OF assms, of i] show ?thesis by simp
qed

theorem remove_exact_witness:
  "distinct (map stop_id [stop_1001\<lparr>related_stop_ids := Some [1002]\<rparr>, stop_2000])
   \<and> fst (handleStopRemove 1001 [stop_1001\<lparr>related_stop_ids := Some [1002]\<rparr>, stop_2000])
       = [stop_2000]
   \<and> length (fst (handleStopRemove 1001
        [stop_1001\<lparr>related_stop_ids := Some [1002]\<rparr>, stop_2000])) = 1
   \<and> fst (handleStopRemove 1002 [stop_1001\<lparr>related_stop_ids := Some [1002]\<rparr>, stop_2000])
       = [stop_1001\<lparr>related_stop_ids := Some [1002]\<rparr>, stop_2000]"
proof -
  let ?S = "[stop_1001\<lparr>related_stop_ids := Some [1002]\<rparr>, stop_2000]"
  have h: "distinct (map stop_id ?S)"
    by (simp add: stop_1001_def stop_2000_def)
  from h remove_exact [OF h, of 1001] remove_exact [OF h, of 1002] show ?thesis
    by (simp add: stop_1001_def stop_2000_def)
qed

text \<open>
  Claim C10. The stop list counts a stop as monitored exactly when a monitored stop has
  its identifier; the button is disabled in that case and shows the plus sign otherwise.
  A stop whose identifier no monitored stop has is therefore offered for selection,
  whatever its name, its routes or the related identifiers of the monitored stops.
\<close>

theorem indicator_exact_id_only:
  "isStopMonitored S x = (\<exists>s \<in> set S. stop_id s = stop_id x)
   \<and> disabled (renderStopItem S x) = isStopMonitored S x
   \<and> (label (renderStopItem S x) = PlusSign) = (\<not> isStopMonitored S x)
   \<and> ((\<forall>s \<in> set S. stop_id s \<noteq> stop_id x) \<longrightarrow>
        \<not> isStopMonitored S x \<and> \<not> disabled (renderStopItem S x))"
  by (auto simp: isStopMonitored_def renderStopItem_def list_ex_iff)

text \<open>
  The paired stop 1002 next to a monitored 1001 that lists it as related: same class,
  yet not counted as monitored, and its button is enabled.
\<close>

theorem indicator_exact_id_only_witness:
  "same_class (stop_1001\<lparr>related_stop_ids := Some [1002]\<rparr>) stop_1002
   \<and> \<not> isStopMonitored [stop_1001\<lparr>related_stop_ids := Some [1002]\<rparr>] stop_1002
   \<and> \<not> disabled (renderStopItem [stop_1001\<lparr>related_stop_ids := Some [1002]\<rparr>] stop_1002)
   \<and> label (renderStopItem [stop_1001\<lparr>related_stop_ids := Some [1002]\<rparr>] stop_1002) = PlusSign
   \<and> isStopMonitored [stop_1001\<lparr>related_stop_ids := Some [1002]\<rparr>] stop_1001"
proof -
  let ?S = "[stop_1001\<lparr>related_stop_ids := Some [1002]\<rparr>]"
  have cls: "same_class (stop_1001\<lparr>related_stop_ids := Some [1002]\<rparr>) stop_1002"
    by (simp add: same_class_def stop_1001_def stop_1002_def)
  have other: "stop_id (stop_1001\<lparr>related_stop_ids := Some [1002]\<rparr>) \<noteq> stop_id stop_1002"
    by (simp add: stop_1001_def stop_1002_def)
  from cls other indicator_exact_id_only [of ?S stop_1002]
    indicator_exact_id_only [of ?S stop_1001]
  show ?thesis by simp
qed

lemma linked_sym: "linked a b = linked b a"
  by (auto simp: linked_def)

lemma unlinked_snoc:
  "unlinked (xs @ [x]) = (unlinked xs \<and> \<not> list_ex (\<lambda>s. linked s x) xs)"
  by (induction xs) (auto simp: list_ex_iff linked_sym)

lemma unlinked_filter: "unlinked xs \<Longrightarrow> unlinked (filter P xs)"
  by (induction xs) (auto simp: list_ex_iff)

lemma handleStopSelect_unlinked:
  "unlinked S \<Longrightarrow> unlinked (fst (handleStopSelect stop S))"
  by (auto simp: handleStopSelect_def Let_def unlinked_snoc list_ex_iff linked_def)

lemma handleStopRemove_unlinked:
  "unlinked S \<Longrightarrow> unlinked (fst (handleStopRemove stopId S))"
  by (simp add: handleStopRemove_def Let_def unlinked_filter)

lemma apply_event_unlinked: "unlinked S \<Longrightarrow> unlinked (apply_event e S)"
  by (cases e) (simp_all add: handleStopSelect_unlinked handleStopRemove_unlinked)

lemma map_select_fields:
  "stop_id (StopsMap_handleStopSelect ts bs u) = stop_id u"
  "stop_name (StopsMap_handleStopSelect ts bs u) = stop_name u"
  "routes (StopsMap_handleStopSelect ts bs u) = routes u"
  by (simp_all add: StopsMap_handleStopSelect_def Let_def)

lemma same_class_enriched_linked:
  assumes x: "enriched ts bs x" and y: "enriched ts bs y" and cls: "same_class x y"
  shows "linked x y"
proof (cases "stop_id x = stop_id y")
  case True
  then show ?thesis by (simp add: linked_def)
next
  case False
  from x obtain u where u: "u \<in> set (ts @ bs)" "x = StopsMap_handleStopSelect ts bs u"
    unfolding enriched_def by blast
  from y obtain v where v: "v \<in> set (ts @ bs)" "y = StopsMap_handleStopSelect ts bs v"
    unfolding enriched_def by blast
  show ?thesis
  proof (cases "stop_name x = stop_name y \<and> list_ex (\<lambda>r. r \<in> set (routes y)) (routes x)")
    case True
    with u(2) v(2) have nm: "stop_name v = stop_name u"
      and ov: "set (routes v) \<inter> set (routes u) \<noteq> {}"
      by (auto simp: map_select_fields list_ex_iff)
    from ov have "routes u \<noteq> []" by auto
    moreover from False u(2) v(2) have "stop_id v \<noteq> stop_id u"
      by (simp add: map_select_fields)
    ultimately have "includes_opt (related_stop_ids x) (stop_id v)"
      unfolding u(2) includes_related_iff using v(1) nm ov by blast
    then show ?thesis by (simp add: linked_def v(2) map_select_fields)
  next
    case other: False
    with cls show ?thesis by (auto simp: same_class_def linked_def)
  qed
qed

lemma unlinked_enriched_one_per_class:
  "unlinked S \<Longrightarrow> list_all (enriched ts bs) S \<Longrightarrow> one_per_class S"
proof (induction S)
  case Nil
  then show ?case by simp
next
  case (Cons x S)
  then have IH: "one_per_class S" by simp
  have "\<not> list_ex (same_class x) S"
  proof
    assume "list_ex (same_class x) S"
    then obtain y where y: "y \<in> set S" "same_class x y" by (auto simp: list_ex_iff)
    with Cons.prems(2) have "enriched ts bs x" "enriched ts bs y"
      by (auto simp: list_all_iff)
    with y(2) have "linked x y" by (rule_tac same_class_enriched_linked)
    with y(1) Cons.prems(1) show False by (auto simp: list_ex_iff)
  qed
  with IH show ?case by simp
qed

lemma apply_event_enriched:
  "map_event_over ts bs e \<Longrightarrow> list_all (enriched ts bs) S \<Longrightarrow>
   list_all (enriched ts bs) (apply_event e S)"
  by (cases e) (auto simp: handleStopSelect_def handleStopRemove_def Let_def list_all_iff
      enriched_def)

lemma run_events_enriched:
  "list_all (map_event_over ts bs) evs \<Longrightarrow> list_all (enriched ts bs) S \<Longrightarrow>
   list_all (enriched ts bs) (run_events evs S)"
  by (induction evs arbitrary: S) (simp_all add: apply_event_enriched)

text \<open>
  Claim C1 as stated fails. From the empty set, selecting the two State/Lake stops from
  the list leaves both monitored, since the list hands a stop over without related
  identifiers; so does selecting them on the map from two searches that each returned
  one of them, since the related identifiers are computed over the search on display
  alone. Both pairs share their name and route 22.
\<close>

theorem one_per_class_counterexample:
  "run_events [ListSelect stop_1001, ListSelect stop_1002] [] = [stop_1001, stop_1002]
   \<and> \<not> one_per_class (run_events [ListSelect stop_1001, ListSelect stop_1002] [])
   \<and> \<not> one_per_class (run_events
         [MapSelect [] [stop_1001] stop_1001, MapSelect [] [stop_1002] stop_1002] [])"
  by (simp add: stop_1001_def stop_1002_def handleStopSelect_def StopsMap_handleStopSelect_def
      findRelatedStops_def includes_opt_def same_class_def Let_def)

text \<open>
  Claim C1, amended. What every sequence of list selections, map selections and removals
  preserves is the part of the equivalence the store compares: no two monitored stops
  have the same identifier, and no monitored stop's related identifiers name another
  monitored stop. It holds from the empty set, and from any loaded snapshot that has
  the property itself. The whole of the claim's invariant holds for the runs that start
  from the empty set and make every selection on the map over one and the same search
  result.
\<close>

theorem monitored_set_unlinked:
  "(unlinked S0 \<longrightarrow> unlinked (run_events evs S0))
   \<and> unlinked (run_events evs [])
   \<and> (list_all (map_event_over trainStops busStops) evs \<longrightarrow>
        one_per_class (run_events evs []))"
proof -
  have step: "unlinked S \<Longrightarrow> unlinked (run_events evs S)" for S
    by (induction evs arbitrary: S) (simp_all add: apply_event_unlinked)
  have "one_per_class (run_events evs [])"
    if "list_all (map_event_over trainStops busStops) evs"
  proof -
    from that have "list_all (enriched trainStops busStops) (run_events evs [])"
      by (rule run_events_enriched) simp
    with step [of "[]"] show ?thesis
      by (intro unlinked_enriched_one_per_class) simp_all
  qed
  with step [of S0] step [of "[]"] show ?thesis by simp
qed

theorem monitored_set_unlinked_witness:
  "unlinked [stop_2000]
   \<and> unlinked (run_events
        [MapSelect [] [stop_1001, stop_1002] stop_1001, ListSelect stop_1002,
         Remove 1001, ListSelect stop_1002] [stop_2000])
   \<and> run_events
        [MapSelect [] [stop_1001, stop_1002] stop_1001, ListSelect stop_1002,
         Remove 1001, ListSelect stop_1002] [stop_2000] = [stop_2000, stop_1002]
   \<and> list_all (map_event_over [] [stop_1001, stop_1002])
        [MapSelect [] [stop_1001, stop_1002] stop_1001,
         MapSelect [] [stop_1001, stop_1002] stop_1002]
   \<and> one_per_class (run_events
        [MapSelect [] [stop_1001, stop_1002] stop_1001,
         MapSelect [] [stop_1001, stop_1002] stop_1002] [])
   \<and> run_events
        [MapSelect [] [stop_1001, stop_1002] stop_1001,
         MapSelect [] [stop_1001, stop_1002] stop_1002] []
       = [stop_1001\<lparr>related_stop_ids := Some [1002]\<rparr>]"
proof -
  let ?evs = "[MapSelect [] [stop_1001, stop_1002] stop_1001, ListSelect stop_1002,
         Remove 1001, ListSelect stop_1002]"
  let ?map = "[MapSelect [] [stop_1001, stop_1002] stop_1001,
         MapSelect [] [stop_1001, stop_1002] stop_1002]"
  note example = stop_1001_def stop_1002_def stop_2000_def handleStopSelect_def
    handleStopRemove_def StopsMap_handleStopSelect_def findRelatedStops_def
    includes_opt_def Let_def
  have h: "unlinked [stop_2000]" by simp
  have r: "run_events ?evs [stop_2000] = [stop_2000, stop_1002]"
    by (simp add: example)
  have m: "list_all (map_event_over [] [stop_1001, stop_1002]) ?map" by simp
  have rm: "run_events ?map [] = [stop_1001\<lparr>related_stop_ids := Some [1002]\<rparr>]"
    by (simp add: example)
  from monitored_set_unlinked [of "[stop_2000]" ?evs] h
  have 1: "unlinked (run_events ?evs [stop_2000])" by blast
  from monitored_set_unlinked [of "[]" ?map "[]" "[stop_1001, stop_1002]"] m
  have 2: "one_per_class (run_events ?map [])" by blast
  from h 1 r m 2 rm show ?thesis by (intro conjI)
qed

section \<open>Properties of the arrivals view\<close>

lemma group_step_own:
  "destination a \<notin> set Object_prototype_keys \<Longrightarrow>
   group_step acc a =
     Inr (acc(destination a \<mapsto>
            (case acc (destination a) of None \<Rightarrow> [] | Some xs \<Rightarrow> xs) @ [a]))"
  by (simp add: group_step_def Let_def split: option.splits)

lemma group_step_inherited:
  "destination a \<in> set Object_prototype_keys \<Longrightarrow> acc (destination a) = None \<Longrightarrow>
   group_step acc a = Inl TypeError"
  by (simp add: group_step_def Let_def)

lemma reduce_groups_own:
  "\<forall>a \<in> set as. destination a \<notin> set Object_prototype_keys \<Longrightarrow>
   reduce_groups acc as = Inr (merged acc as)"
proof (induction as arbitrary: acc)
  case Nil
  then show ?case by (simp add: merged_def)
next
  case (Cons a as)
  then have own: "destination a \<notin> set Object_prototype_keys"
    and rest: "\<forall>a \<in> set as. destination a \<notin> set Object_prototype_keys" by simp_all
  let ?acc' = "acc(destination a \<mapsto>
                 (case acc (destination a) of None \<Rightarrow> [] | Some xs \<Rightarrow> xs) @ [a])"
  have "reduce_groups acc (a # as) = reduce_groups ?acc' as"
    by (simp add: group_step_own[OF own])
  also have "\<dots> = Inr (merged ?acc' as)" by (rule Cons.IH[OF rest])
  also have "merged ?acc' as = merged acc (a # as)"
    by (rule ext) (simp add: merged_def Let_def)
  finally show ?case .
qed

lemma reduce_groups_inherited:
  "\<exists>a \<in> set as. destination a \<in> set Object_prototype_keys \<Longrightarrow>
   \<forall>k \<in> set Object_prototype_keys. acc k = None \<Longrightarrow>
   reduce_groups acc as = Inl TypeError"
proof (induction as arbitrary: acc)
  case Nil
  then show ?case by simp
next
  case (Cons a as)
  show ?case
  proof (cases "destination a \<in> set Object_prototype_keys")
    case True
    with Cons.prems(2) have "acc (destination a) = None" by blast
    with True show ?thesis by (simp add: group_step_inherited)
  next
    case False
    let ?acc' = "acc(destination a \<mapsto>
                   (case acc (destination a) of None \<Rightarrow> [] | Some xs \<Rightarrow> xs) @ [a])"
    from False Cons.prems(1)
    have ex: "\<exists>a \<in> set as. destination a \<in> set Object_prototype_keys"
      by auto
    from False Cons.prems(2) have clean: "\<forall>k \<in> set Object_prototype_keys. ?acc' k = None"
      by auto
    have "reduce_groups acc (a # as) = reduce_groups ?acc' as"
      by (simp add: group_step_own[OF False])
    also have "\<dots> = Inl TypeError" by (rule Cons.IH[OF ex clean])
    finally show ?thesis .
  qed
qed

text \<open>
  Claim C3 as stated fails: the component never sorts. For an upstream answer that lists
  the Howard arrival in 12 minutes before the one in 4 minutes, the Howard group shows
  12 before 4.
\<close>

theorem groups_sorted_counterexample:
  "map_option (map minutes)
     (lookup_group
        (arrivalsByDestination [arrival_howard_12, arrival_harrison_7, arrival_howard_4])
        ''Howard'') = Some [12, 4]
   \<and> \<not> sorted [12 :: int, 4]"
  by (simp add: arrivalsByDestination_def group_step_def lookup_group_def Let_def
      arrival_howard_12_def arrival_howard_4_def arrival_harrison_7_def
      Object_prototype_keys_def)

text \<open>
  Claim C3, amended. Arrivals are grouped by exact equality of the destination string:
  a destination has a group exactly when some arrival has it, and its group is the
  arrivals with that destination in the order upstream returned them; so a group is
  ascending by minutes only when upstream's answer is, for that destination. The
  grouping is defined unless a destination is a property name that the accumulator
  inherits from \<^verbatim>\<open>Object.prototype\<close>, where it raises a TypeError.
\<close>

theorem groups_keep_upstream_order:
  "(if \<exists>a \<in> set upstream. destination a \<in> set Object_prototype_keys
    then arrivalsByDestination upstream = Inl TypeError
    else \<exists>g. arrivalsByDestination upstream = Inr g \<and>
           (\<forall>d. g d = (if \<exists>a \<in> set upstream. destination a = d
                        then Some (filter (\<lambda>a. destination a = d) upstream) else None)))"
proof (cases "\<exists>a \<in> set upstream. destination a \<in> set Object_prototype_keys")
  case True
  then have "arrivalsByDestination upstream = Inl TypeError"
    unfolding arrivalsByDestination_def by (rule reduce_groups_inherited) simp
  with True show ?thesis by simp
next
  case False
  then have "arrivalsByDestination upstream = Inr (merged Map.empty upstream)"
    unfolding arrivalsByDestination_def by (intro reduce_groups_own) simp
  moreover have "merged Map.empty upstream d =
      (if \<exists>a \<in> set upstream. destination a = d
       then Some (filter (\<lambda>a. destination a = d) upstream) else None)" for d
    by (auto simp: merged_def Let_def filter_empty_conv)
  ultimately show ?thesis using False by simp
qed

theorem groups_keep_upstream_order_witness:
  "lookup_group
     (arrivalsByDestination [arrival_howard_12, arrival_harrison_7, arrival_howard_4])
     ''Howard'' = Some [arrival_howard_12, arrival_howard_4]
   \<and> lookup_group
     (arrivalsByDestination [arrival_howard_12, arrival_harrison_7, arrival_howard_4])
     ''Harrison'' = Some [arrival_harrison_7]
   \<and> lookup_group
     (arrivalsByDestination [arrival_howard_12, arrival_harrison_7, arrival_howard_4])
     ''howard'' = None
   \<and> arrivalsByDestination [arrival_howard_12, arrival_howard_4\<lparr>destination := ''constructor''\<rparr>]
       = Inl TypeError"
proof -
  let ?up = "[arrival_howard_12, arrival_harrison_7, arrival_howard_4]"
  have own: "\<not> (\<exists>a \<in> set ?up. destination a \<in> set Object_prototype_keys)"
    by (simp add: arrival_howard_12_def arrival_howard_4_def arrival_harrison_7_def
        Object_prototype_keys_def)
  with groups_keep_upstream_order [of ?up]
  obtain g where g: "arrivalsByDestination ?up = Inr g"
    and groups: "\<And>d. g d = (if \<exists>a \<in> set ?up. destination a = d
                        then Some (filter (\<lambda>a. destination a = d) ?up) else None)"
    by auto
  let ?bad = "[arrival_howard_12, arrival_howard_4\<lparr>destination := ''constructor''\<rparr>]"
  have "\<exists>a \<in> set ?bad. destination a \<in> set Object_prototype_keys"
    by (simp add: Object_prototype_keys_def)
  with groups_keep_upstream_order [of ?bad]
  have raised: "arrivalsByDestination ?bad = Inl TypeError"
    by (simp only: if_True)
  from g groups [of "''Howard''"] groups [of "''Harrison''"] groups [of "''howard''"]
  have "lookup_group (arrivalsByDestination ?up) ''Howard''
          = Some [arrival_howard_12, arrival_howard_4]
      \<and> lookup_group (arrivalsByDestination ?up) ''Harrison'' = Some [arrival_harrison_7]
      \<and> lookup_group (arrivalsByDestination ?up) ''howard'' = None"
    by (simp add: lookup_group_def arrival_howard_12_def arrival_howard_4_def
        arrival_harrison_7_def)
  with raised show ?thesis by blast
qed

text \<open>
  Claim C4 as stated fails for what the consumer sees. After one successful poll the
  Howard arrival is on the screen; after the failed poll that follows, the component
  renders the error alert alone and the arrival is not on the screen.
\<close>

theorem failed_poll_view_counterexample:
  "observes (render (fetchArrivals (Resolved [arrival_howard_4]) initial_state))
     arrival_howard_4
   \<and> \<not> observes (render (fetchArrivals (Threw ''Failed to fetch'')
          (fetchArrivals (Resolved [arrival_howard_4]) initial_state))) arrival_howard_4"
  by (simp add: fetchArrivals_def fetch_settled_def fetch_started_def render_def truthy_def
      observes_def initial_state_def arrivalsByDestination_def group_step_def Let_def
      arrival_howard_4_def Object_prototype_keys_def)

text \<open>
  Claim C4, amended. A failed poll leaves the \<open>arrivals\<close> state untouched and sets the
  error. While the error is set the component renders the error alert alone, so no
  retained arrival is on the screen. The retained arrivals are still in the state when
  the next poll starts; that start clears the error, and from then on the arrivals
  retained (if any) are rendered again, grouped as before.
\<close>

theorem failed_poll_keeps_state_hides_view:
  "arrivals (fetchArrivals (Threw m) st) = arrivals st
   \<and> error (fetchArrivals (Threw m) st) = Some (''Error fetching arrivals: '' @ m)
   \<and> render (fetchArrivals (Threw m) st) =
       Inr (ErrorAlert (''Error fetching arrivals: '' @ m))
   \<and> \<not> observes (render (fetchArrivals (Threw m) st)) a
   \<and> arrivals (fetch_started (fetchArrivals (Threw m) st)) = arrivals st
   \<and> (arrivals st \<noteq> [] \<longrightarrow>
        render (fetch_started (fetchArrivals (Threw m) st)) =
          (case arrivalsByDestination (arrivals st) of
             Inl e \<Rightarrow> Inl e | Inr g \<Rightarrow> Inr (ArrivalsPaper g)))"
  by (simp add: fetchArrivals_def fetch_settled_def fetch_started_def render_def truthy_def
      observes_def)

theorem failed_poll_keeps_state_hides_view_witness:
  "arrivals (fetchArrivals (not_ok ''503'')
      (fetchArrivals (Resolved [arrival_howard_4]) initial_state)) = [arrival_howard_4]
   \<and> render (fetchArrivals (not_ok ''503'')
      (fetchArrivals (Resolved [arrival_howard_4]) initial_state))
      = Inr (ErrorAlert ''Error fetching arrivals: HTTP error! status: 503'')
   \<and> observes (render (fetch_started (fetchArrivals (not_ok ''503'')
      (fetchArrivals (Resolved [arrival_howard_4]) initial_state)))) arrival_howard_4"
proof -
  let ?ok = "fetchArrivals (Resolved [arrival_howard_4]) initial_state"
  have kept: "arrivals ?ok = [arrival_howard_4]"
    by (simp add: fetchArrivals_def fetch_settled_def fetch_started_def initial_state_def)
  have grp: "arrivalsByDestination [arrival_howard_4] = Inr [''Howard'' \<mapsto> [arrival_howard_4]]"
    by (simp add: arrivalsByDestination_def group_step_def Let_def
      arrival_howard_4_def Object_prototype_keys_def)
  from kept grp
    failed_poll_keeps_state_hides_view [of "''HTTP error! status: 503''" ?ok arrival_howard_4]
  show ?thesis
    by (simp add: not_ok_def observes_def arrival_howard_4_def)
qed

lemma sequential_rounds:
  "interval_armed p \<Longrightarrow> in_flight p = 1 \<Longrightarrow>
   sequential (concat (replicate n [Settle, Tick])) p"
proof (induction n arbitrary: p)
  case 0
  then show ?case by simp
next
  case (Suc n)
  let ?p' = "poll_step Tick (poll_step Settle p)"
  from Suc.prems have "interval_armed ?p'" "in_flight ?p' = 1" by simp_all
  then have "sequential (concat (replicate n [Settle, Tick])) ?p'" by (rule Suc.IH)
  with Suc.prems show ?case by simp
qed

text \<open>
  Claim C9 as stated fails. The interval is armed by the effect itself, right after the
  first request is started, and its callback starts a request without looking at the one
  before: when the interval fires before the first request has settled, a second poll
  is started and two requests are in flight.
\<close>

theorem sequential_counterexample:
  "\<not> sequential [Mount, Tick] idle \<and> in_flight (run_poller [Mount, Tick] idle) = 2"
  by (simp add: idle_def)

text \<open>
  Claim C9, amended. The effect arms the interval while its first request is still in
  flight; every firing of the armed interval starts a poll and adds a request in flight,
  whatever is outstanding. Polls of one entity are sequential in the runs where each
  request settles before the interval fires next.
\<close>

theorem interval_armed_before_completion:
  "poll_step Mount idle = \<lparr>interval_armed = True, in_flight = 1\<rparr>
   \<and> (interval_armed p \<longrightarrow>
        starts_poll Tick p \<and> in_flight (poll_step Tick p) = in_flight p + 1)
   \<and> sequential (Mount # concat (replicate n [Settle, Tick])) idle"
proof -
  have "sequential (concat (replicate n [Settle, Tick])) (poll_step Mount idle)"
    by (rule sequential_rounds) (simp_all add: idle_def)
  then show ?thesis by (simp add: idle_def)
qed

theorem interval_armed_before_completion_witness:
  "interval_armed (poll_step Mount idle)
   \<and> in_flight (poll_step Mount idle) = 1
   \<and> in_flight (poll_step Tick (poll_step Mount idle)) = 2
   \<and> sequential [Mount, Settle, Tick, Settle, Tick] idle"
proof -
  have armed: "interval_armed (poll_step Mount idle)" by simp
  have runs: "Mount # concat (replicate 2 [Settle, Tick]) = [Mount, Settle, Tick, Settle, Tick]"
    by (simp add: numeral_2_eq_2)
  from armed interval_armed_before_completion [of "poll_step Mount idle" 2]
  show ?thesis unfolding runs by simp
qed

section \<open>Properties of the location form\<close>

lemma js_range_checks:
  "x \<noteq> NaN \<Longrightarrow> (js_less x (- 90) \<or> js_greater x 90) = (\<not> valid_latitude x)"
  "x \<noteq> NaN \<Longrightarrow> (js_less x (- 180) \<or> js_greater x 180) = (\<not> valid_longitude x)"
  "x \<noteq> NaN \<Longrightarrow> (js_less_eq x 0 \<or> js_greater x 2) = (\<not> valid_radius x)"
  by (cases x; auto simp: valid_latitude_def valid_longitude_def valid_radius_def)+

lemma message_marks:
  "\<not> field_specific (Some ''Please enter valid numbers'')"
  "field_marked (Some ''Latitude must be between -90 and 90'') ''Latitude''"
  "field_marked (Some ''Longitude must be between -180 and 180'') ''Longitude''"
  "field_marked (Some ''Radius must be between 0 and 2 miles'') ''Radius''"
  by (simp_all add: field_specific_def field_marked_def truthy_def)

text \<open>
  Claim C8 as stated fails on the message of a non-numeric entry. With an empty latitude
  the submission is rejected and nothing is called, but the message is the general
  "Please enter valid numbers", which marks none of the three fields.
\<close>

theorem field_specific_counterexample:
  "form_error (handleSubmit parse_sample [] ''-87.6298'' ''0.5'')
     = Some ''Please enter valid numbers''
   \<and> onLocationUpdate (handleSubmit parse_sample [] ''-87.6298'' ''0.5'') = None
   \<and> \<not> field_specific (form_error (handleSubmit parse_sample [] ''-87.6298'' ''0.5''))"
  by (simp add: handleSubmit_def parse_sample_def isNaN_def Let_def message_marks)

text \<open>
  Claim C8, amended. A submission with a non-numeric field is rejected with the general
  message, which marks no field. Otherwise the first of latitude outside \<open>[-90, 90]\<close>,
  longitude outside \<open>[-180, 180]\<close>, radius outside \<open>(0, 2]\<close> rejects it with the message
  of that field. A rejected submission does not call \<^verbatim>\<open>onLocationUpdate\<close>. Otherwise
  the error is cleared and \<^verbatim>\<open>onLocationUpdate\<close> is called with the three numbers. So
  the call is made exactly for valid input, and the message is field-specific exactly
  for numeric input that is out of range.
\<close>

theorem submit_validation:
  "handleSubmit parseFloat latitudeText longitudeText radiusText =
     (let lat = parseFloat latitudeText; lon = parseFloat longitudeText;
          rad = parseFloat radiusText
      in if lat = NaN \<or> lon = NaN \<or> rad = NaN
         then \<lparr>form_error = Some ''Please enter valid numbers'', onLocationUpdate = None\<rparr>
         else if \<not> valid_latitude lat
         then \<lparr>form_error = Some ''Latitude must be between -90 and 90'',
               onLocationUpdate = None\<rparr>
         else if \<not> valid_longitude lon
         then \<lparr>form_error = Some ''Longitude must be between -180 and 180'',
               onLocationUpdate = None\<rparr>
         else if \<not> valid_radius rad
         then \<lparr>form_error = Some ''Radius must be between 0 and 2 miles'',
               onLocationUpdate = None\<rparr>
         else \<lparr>form_error = None, onLocationUpdate = Some (lat, lon, rad)\<rparr>)
   \<and> (onLocationUpdate (handleSubmit parseFloat latitudeText longitudeText radiusText) = None) =
       (\<not> (valid_latitude (parseFloat latitudeText) \<and>
           valid_longitude (parseFloat longitudeText) \<and>
           valid_radius (parseFloat radiusText)))
   \<and> (form_error (handleSubmit parseFloat latitudeText longitudeText radiusText) = None) =
       (valid_latitude (parseFloat latitudeText) \<and>
        valid_longitude (parseFloat longitudeText) \<and>
        valid_radius (parseFloat radiusText))
   \<and> field_specific (form_error (handleSubmit parseFloat latitudeText longitudeText radiusText)) =
       (parseFloat latitudeText \<noteq> NaN \<and> parseFloat longitudeText \<noteq> NaN \<and>
        parseFloat radiusText \<noteq> NaN \<and>
        \<not> (valid_latitude (parseFloat latitudeText) \<and>
           valid_longitude (parseFloat longitudeText) \<and>
           valid_radius (parseFloat radiusText)))"
proof -
  have nan: "valid_latitude NaN = False" "valid_longitude NaN = False" "valid_radius NaN = False"
    by (simp_all add: valid_latitude_def valid_longitude_def valid_radius_def)
  have none: "\<not> field_specific None"
    by (simp add: field_specific_def field_marked_def truthy_def)
  have named: "field_specific (Some ''Latitude must be between -90 and 90'')"
    "field_specific (Some ''Longitude must be between -180 and 180'')"
    "field_specific (Some ''Radius must be between 0 and 2 miles'')"
    using message_marks by (simp_all add: field_specific_def)
  have eq: "handleSubmit parseFloat latitudeText longitudeText radiusText =
     (let lat = parseFloat latitudeText; lon = parseFloat longitudeText;
          rad = parseFloat radiusText
      in if lat = NaN \<or> lon = NaN \<or> rad = NaN
         then \<lparr>form_error = Some ''Please enter valid numbers'', onLocationUpdate = None\<rparr>
         else if \<not> valid_latitude lat
         then \<lparr>form_error = Some ''Latitude must be between -90 and 90'',
               onLocationUpdate = None\<rparr>
         else if \<not> valid_longitude lon
         then \<lparr>form_error = Some ''Longitude must be between -180 and 180'',
               onLocationUpdate = None\<rparr>
         else if \<not> valid_radius rad
         then \<lparr>form_error = Some ''Radius must be between 0 and 2 miles'',
               onLocationUpdate = None\<rparr>
         else \<lparr>form_error = None, onLocationUpdate = Some (lat, lon, rad)\<rparr>)"
    unfolding handleSubmit_def Let_def isNaN_def
    by (simp add: js_range_checks)
  show ?thesis
    apply (rule conjI[OF eq])
    unfolding eq Let_def
    using nan none named message_marks(1)
    by (auto simp del: One_nat_def)
qed

text \<open>The spec's scenario: radius 3 is rejected without a call; radius 0.5 goes through.\<close>

theorem submit_validation_witness:
  "handleSubmit parse_sample ''41.8781'' ''-87.6298'' ''3'' =
     \<lparr>form_error = Some ''Radius must be between 0 and 2 miles'', onLocationUpdate = None\<rparr>
   \<and> field_specific (form_error (handleSubmit parse_sample ''41.8781'' ''-87.6298'' ''3''))
   \<and> handleSubmit parse_sample ''41.8781'' ''-87.6298'' ''0.5'' =
     \<lparr>form_error = None,
      onLocationUpdate = Some (Finite 41.8781, Finite (- 87.6298), Finite 0.5)\<rparr>
   \<and> form_error (handleSubmit parse_sample ''91'' ''-87.6298'' ''3'') =
     Some ''Latitude must be between -90 and 90''"
proof -
  have p: "parse_sample ''41.8781'' = Finite 41.8781"
    "parse_sample ''-87.6298'' = Finite (- 87.6298)"
    "parse_sample ''0.5'' = Finite 0.5" "parse_sample ''3'' = Finite 3"
    "parse_sample ''91'' = Finite 91"
    by (simp_all add: parse_sample_def)
  note v = valid_latitude_def valid_longitude_def valid_radius_def
  note wide = submit_validation [of parse_sample "''41.8781''" "''-87.6298''" "''3''"]
  note fine = submit_validation [of parse_sample "''41.8781''" "''-87.6298''" "''0.5''"]
  note north = submit_validation [of parse_sample "''91''" "''-87.6298''" "''3''"]
  have 1: "handleSubmit parse_sample ''41.8781'' ''-87.6298'' ''3'' =
     \<lparr>form_error = Some ''Radius must be between 0 and 2 miles'', onLocationUpdate = None\<rparr>"
    using wide [THEN conjunct1] by (simp add: Let_def p v)
  have 2: "field_specific (form_error (handleSubmit parse_sample ''41.8781'' ''-87.6298'' ''3''))"
    using wide [THEN conjunct2, THEN conjunct2, THEN conjunct2] by (simp add: p v)
  have 3: "handleSubmit parse_sample ''41.8781'' ''-87.6298'' ''0.5'' =
     \<lparr>form_error = None,
      onLocationUpdate = Some (Finite 41.8781, Finite (- 87.6298), Finite 0.5)\<rparr>"
    using fine [THEN conjunct1] by (simp add: Let_def p v)
  have 4: "form_error (handleSubmit parse_sample ''91'' ''-87.6298'' ''3'') =
     Some ''Latitude must be between -90 and 90''"
    using north [THEN conjunct1] by (simp add: Let_def p v)
  from 1 2 3 4 show ?thesis by (intro conjI)
qed

end
